theory Spec2Isabelle
  imports Complex_Main
begin

section \<open>Numeric values of the program\<close>

text \<open>
  The program \<^verbatim>\<open>calc_ccf.py\<close> computes with numpy \<^verbatim>\<open>float64\<close> values. A finite
  value is modelled by the real number it stands for (rounding and overflow are
  abstracted); the special values that numpy produces silently, instead of raising, are
  kept: \<open>NaN\<close> and the two infinities. A zero denominator is taken as \<open>+0\<close>, which is
  what the program's non-negative sums and denominators produce.
\<close>

datatype fl = Fin real | PInf | NInf | NaN

text \<open>The Python exceptions that the modelled statements can raise.\<close>

datatype error = IndexError | ValueError | TypeError

fun fadd :: "fl \<Rightarrow> fl \<Rightarrow> fl" where
  "fadd (Fin a) (Fin b) = Fin (a + b)"
| "fadd NaN y = NaN"
| "fadd x NaN = NaN"
| "fadd PInf NInf = NaN"
| "fadd NInf PInf = NaN"
| "fadd PInf y = PInf"
| "fadd x PInf = PInf"
| "fadd NInf y = NInf"
| "fadd x NInf = NInf"

fun fmul :: "fl \<Rightarrow> fl \<Rightarrow> fl" where
  "fmul (Fin a) (Fin b) = Fin (a * b)"
| "fmul NaN y = NaN"
| "fmul x NaN = NaN"
| "fmul (Fin a) PInf = (if a = 0 then NaN else if 0 < a then PInf else NInf)"
| "fmul (Fin a) NInf = (if a = 0 then NaN else if 0 < a then NInf else PInf)"
| "fmul PInf (Fin b) = (if b = 0 then NaN else if 0 < b then PInf else NInf)"
| "fmul NInf (Fin b) = (if b = 0 then NaN else if 0 < b then NInf else PInf)"
| "fmul PInf PInf = PInf"
| "fmul NInf NInf = PInf"
| "fmul PInf NInf = NInf"
| "fmul NInf PInf = NInf"

fun fdiv :: "fl \<Rightarrow> fl \<Rightarrow> fl" where
  "fdiv (Fin a) (Fin b) =
     (if b \<noteq> 0 then Fin (a / b)
      else if a = 0 then NaN else if 0 < a then PInf else NInf)"
| "fdiv NaN y = NaN"
| "fdiv x NaN = NaN"
| "fdiv (Fin a) PInf = Fin 0"
| "fdiv (Fin a) NInf = Fin 0"
| "fdiv PInf (Fin b) = (if 0 \<le> b then PInf else NInf)"
| "fdiv NInf (Fin b) = (if 0 \<le> b then NInf else PInf)"
| "fdiv PInf PInf = NaN"
| "fdiv PInf NInf = NaN"
| "fdiv NInf PInf = NaN"
| "fdiv NInf NInf = NaN"

text \<open>\<^verbatim>\<open>x > y\<close> on floats: false as soon as one side is \<open>NaN\<close>.\<close>

fun fgt :: "fl \<Rightarrow> fl \<Rightarrow> bool" where
  "fgt (Fin a) (Fin b) = (b < a)"
| "fgt NaN y = False"
| "fgt x NaN = False"
| "fgt PInf PInf = False"
| "fgt PInf y = True"
| "fgt x PInf = False"
| "fgt NInf y = False"
| "fgt x NInf = True"

text \<open>Truth value of a float in \<^verbatim>\<open>if x:\<close>: everything but zero, \<open>NaN\<close> included.\<close>

fun truthy :: "fl \<Rightarrow> bool" where
  "truthy (Fin a) = (a \<noteq> 0)"
| "truthy x = True"

text \<open>\<^verbatim>\<open>int(x)\<close> on a finite float truncates towards zero.\<close>

definition py_int :: "real \<Rightarrow> int" where
  "py_int x = (if 0 \<le> x then \<lfloor>x\<rfloor> else \<lceil>x\<rceil>)"

section \<open>Arrays\<close>

text \<open>A one-dimensional numpy array is a list of floats.\<close>

type_synonym arr = "fl list"

text \<open>\<^verbatim>\<open>np.zeros(n)\<close> and \<^verbatim>\<open>np.linspace(0, 1, n)\<close>; both raise on a negative size.\<close>

definition np_zeros :: "int \<Rightarrow> error + arr" where
  "np_zeros n = (if n < 0 then Inl ValueError else Inr (replicate (nat n) (Fin 0)))"

definition np_linspace01 :: "int \<Rightarrow> error + real list" where
  "np_linspace01 n =
     (if n < 0 then Inl ValueError
      else if n = 1 then Inr [0]
      else Inr (map (\<lambda>i. real i / real_of_int (n - 1)) [0..<nat n]))"

text \<open>\<^verbatim>\<open>np.arange(start, stop)\<close> with step 1: \<open>\<lceil>stop - start\<rceil>\<close> values from \<open>start\<close>.\<close>

definition np_arange :: "real \<Rightarrow> real \<Rightarrow> real list" where
  "np_arange start stop = map (\<lambda>i. start + real i) [0..<nat \<lceil>stop - start\<rceil>]"

text \<open>Python's built-in \<^verbatim>\<open>sum\<close> over an array: a left fold from the integer 0.\<close>

definition py_sum :: "arr \<Rightarrow> fl" where
  "py_sum xs = foldl fadd (Fin 0) xs"

text \<open>
  \<^verbatim>\<open>np.argmax\<close>: the first index of the largest element, the first \<open>NaN\<close> if there is one;
  \<^verbatim>\<open>ValueError\<close> on an empty array.
\<close>

fun argmax_scan :: "fl \<Rightarrow> nat \<Rightarrow> nat \<Rightarrow> arr \<Rightarrow> nat" where
  "argmax_scan best bi i [] = bi"
| "argmax_scan best bi i (x # xs) =
     (if best \<noteq> NaN \<and> (x = NaN \<or> fgt x best)
      then argmax_scan x i (Suc i) xs
      else argmax_scan best bi (Suc i) xs)"

definition np_argmax :: "arr \<Rightarrow> error + nat" where
  "np_argmax xs = (case xs of [] \<Rightarrow> Inl ValueError | x # r \<Rightarrow> Inr (argmax_scan x 0 1 r))"

text \<open>Array times scalar, array divided by scalar.\<close>

definition arr_scale :: "arr \<Rightarrow> fl \<Rightarrow> arr" where
  "arr_scale xs c = map (\<lambda>x. fmul x c) xs"

definition arr_div :: "arr \<Rightarrow> fl \<Rightarrow> arr" where
  "arr_div xs c = map (\<lambda>x. fdiv x c) xs"

text \<open>
  \<^verbatim>\<open>a += b\<close> and \<^verbatim>\<open>a + b\<close> on arrays. In place, \<open>b\<close> must have the shape of \<open>a\<close> or
  one element (which is broadcast); otherwise numpy raises \<^verbatim>\<open>ValueError\<close>.
\<close>

definition arr_iadd :: "arr \<Rightarrow> arr \<Rightarrow> error + arr" where
  "arr_iadd a b =
     (if length b = length a then Inr (map2 fadd a b)
      else if length b = 1 then Inr (map (\<lambda>x. fadd x (hd b)) a)
      else Inl ValueError)"

text \<open>
  \<^verbatim>\<open>a[k:] = 0\<close>: Python clips the slice start, a negative \<open>k\<close> counting from the end.
  \<^verbatim>\<open>a[k] = 0\<close>: one element; \<^verbatim>\<open>IndexError\<close> when \<open>k\<close> is out of range.
\<close>

definition slice_start :: "int \<Rightarrow> nat \<Rightarrow> nat" where
  "slice_start k n = (if k < 0 then nat (max (int n + k) 0) else min (nat k) n)"

definition zero_tail :: "arr \<Rightarrow> int \<Rightarrow> arr" where
  "zero_tail a k =
     (let s = slice_start k (length a) in take s a @ replicate (length a - s) (Fin 0))"

definition set_item :: "arr \<Rightarrow> int \<Rightarrow> fl \<Rightarrow> error + arr" where
  "set_item a k v =
     (let n = int (length a) in
      if k < - n \<or> n \<le> k then Inl IndexError
      else Inr (a[nat (if k < 0 then k + n else k) := v]))"

section \<open>The scipy distributions\<close>

text \<open>
  \<^verbatim>\<open>scipy.stats.binom.pmf(k, n, p)\<close> for counts \<open>k\<close>, \<open>n\<close>: the binomial probability
  when \<open>0 \<le> p \<le> 1\<close>, and \<open>NaN\<close> for every other \<open>p\<close> (scipy's argument check).
\<close>

fun binom_pmf :: "nat \<Rightarrow> nat \<Rightarrow> fl \<Rightarrow> fl" where
  "binom_pmf k n (Fin p) =
     (if 0 \<le> p \<and> p \<le> 1
      then Fin (if k \<le> n then real (n choose k) * p ^ k * (1 - p) ^ (n - k) else 0)
      else NaN)"
| "binom_pmf k n x = NaN"

text \<open>
  \<^verbatim>\<open>scipy.stats.beta.pdf(x, a, b)\<close> for integer shapes \<open>a, b \<ge> 1\<close>: the density
  \<open>x^(a-1) (1-x)^(b-1) / B(a,b)\<close> with \<open>B(a,b) = (a-1)! (b-1)! / (a+b-1)!\<close> on the support
  \<open>[0,1]\<close>, 0 outside of it (also at the infinities), \<open>NaN\<close> at \<open>NaN\<close> and for a shape
  that is not positive.
\<close>

definition beta_density :: "real \<Rightarrow> nat \<Rightarrow> nat \<Rightarrow> real" where
  "beta_density x a b =
     x ^ (a - 1) * (1 - x) ^ (b - 1)
       * (real (fact (a + b - 1)) / (real (fact (a - 1)) * real (fact (b - 1))))"

definition beta_pdf :: "fl \<Rightarrow> nat \<Rightarrow> nat \<Rightarrow> fl" where
  "beta_pdf x a b =
     (if a = 0 \<or> b = 0 then NaN
      else case x of
             Fin r \<Rightarrow> (if 0 \<le> r \<and> r \<le> 1 then Fin (beta_density r a b) else Fin 0)
           | NaN \<Rightarrow> NaN
           | PInf \<Rightarrow> Fin 0
           | NInf \<Rightarrow> Fin 0)"

section \<open>The program\<close>

subsection \<open>\<^verbatim>\<open>get_clonal_cns\<close>\<close>

definition get_clonal_cns :: "real \<Rightarrow> real \<times> real \<times> real" where
  "get_clonal_cns local_cn =
     (if local_cn > 1
      then (let clonal_cn = real_of_int \<lfloor>local_cn\<rfloor>;
                subclonal_cn = real_of_int \<lceil>local_cn\<rceil>;
                subclonal_frac = local_cn - clonal_cn
            in (clonal_cn, subclonal_cn, subclonal_frac))
      else (let clonal_cn = real_of_int \<lceil>local_cn\<rceil>;
                subclonal_cn = real_of_int \<lfloor>local_cn\<rfloor>;
                subclonal_frac = clonal_cn - local_cn
            in (clonal_cn, subclonal_cn, subclonal_frac)))"

subsection \<open>\<^verbatim>\<open>calc_mult_weight\<close>\<close>

text \<open>
  The denominator \<^verbatim>\<open>total_cn * purity + 2 * (1 - purity)\<close>, which the source writes out
  in every allele-fraction formula.
\<close>

definition af_denom :: "real \<Rightarrow> real \<Rightarrow> real" where
  "af_denom total_cn purity = total_cn * purity + 2 * (1 - purity)"

definition calc_mult_weight :: "real \<Rightarrow> real \<Rightarrow> real \<Rightarrow> nat \<Rightarrow> nat \<Rightarrow> fl" where
  "calc_mult_weight multiplicity purity total_count alt_count total_coverage =
     (let af_mode = fdiv (Fin (multiplicity * purity)) (Fin (af_denom total_count purity))
      in binom_pmf alt_count total_coverage af_mode)"

subsection \<open>\<^verbatim>\<open>update_ccf_hist\<close>\<close>

text \<open>
  Lines 90 to 93: the two copies of the multiplicity-1 histogram after the two
  assignments \<^verbatim>\<open>subc_ccf_dist1[int(subclonal_frac * 100):] = 0\<close> and
  \<^verbatim>\<open>subc_ccf_dist2[int((1 - subclonal_frac) * 100)] = 0\<close>.
\<close>

definition truncated_copies :: "real \<Rightarrow> arr \<Rightarrow> error + (arr \<times> arr)" where
  "truncated_copies subclonal_frac ccf_dist_m1 =
     (let subc_ccf_dist1 = zero_tail ccf_dist_m1 (py_int (subclonal_frac * 100))
      in case set_item ccf_dist_m1 (py_int ((1 - subclonal_frac) * 100)) (Fin 0) of
           Inl e \<Rightarrow> Inl e
         | Inr subc_ccf_dist2 \<Rightarrow> Inr (subc_ccf_dist1, subc_ccf_dist2))"

definition update_ccf_hist ::
  "arr \<Rightarrow> real \<Rightarrow> arr \<Rightarrow> real \<Rightarrow> real \<Rightarrow> nat \<Rightarrow> nat \<Rightarrow> error + arr" where
  "update_ccf_hist subc_ccf_hist subclonal_frac ccf_dist_m1 purity total_cn alt_cnt total_cov =
     (case truncated_copies subclonal_frac ccf_dist_m1 of
        Inl e \<Rightarrow> Inl e
      | Inr (subc_ccf_dist1, subc_ccf_dist2) \<Rightarrow>
          (let sum_dist_1 = py_sum subc_ccf_dist1 in
           case (if truthy sum_dist_1
                 then (let af_mode_1 =
                             fdiv (Fin (subclonal_frac * purity)) (Fin (af_denom total_cn purity))
                       in arr_iadd subc_ccf_hist
                            (arr_scale (arr_div subc_ccf_dist1 sum_dist_1)
                               (binom_pmf alt_cnt total_cov af_mode_1)))
                 else Inr subc_ccf_hist) of
             Inl e \<Rightarrow> Inl e
           | Inr hist1 \<Rightarrow>
               (let sum_dist_2 = py_sum subc_ccf_dist2 in
                if truthy sum_dist_2
                then (let af_mode_2 =
                            fdiv (Fin ((1 - subclonal_frac) * purity))
                              (Fin (af_denom total_cn purity))
                      in arr_iadd hist1
                           (arr_scale (arr_div subc_ccf_dist2 sum_dist_2)
                              (binom_pmf alt_cnt total_cov af_mode_2)))
                else Inr hist1)))"

subsection \<open>\<^verbatim>\<open>ccf_dist_from_params\<close> and \<^verbatim>\<open>cp_dist_from_params\<close>\<close>

text \<open>
  For multiplicity 0 both functions return the tuple \<^verbatim>\<open>(ccf_dist, 0.)\<close>, otherwise the
  array alone; the result type keeps the two shapes apart.
\<close>

datatype dist_result = Dist arr | DistMean arr fl

definition ccf_dist_from_params ::
  "real \<Rightarrow> real \<Rightarrow> nat \<Rightarrow> nat \<Rightarrow> real \<Rightarrow> int \<Rightarrow> error + dist_result" where
  "ccf_dist_from_params mult total_cn alt_cnt ref_cnt purity grid_size =
     (if mult = 0
      then (case np_zeros grid_size of
              Inl e \<Rightarrow> Inl e
            | Inr zs \<Rightarrow>
                (case set_item zs 0 (Fin 1) of
                   Inl e \<Rightarrow> Inl e
                 | Inr ccf_dist \<Rightarrow> Inr (DistMean ccf_dist (Fin 0))))
      else (case np_linspace01 grid_size of
              Inl e \<Rightarrow> Inl e
            | Inr ccf_bins \<Rightarrow>
                (let ccf_domain_in_af_space =
                       map (\<lambda>b. fdiv (Fin (b * mult * purity)) (Fin (af_denom total_cn purity)))
                         ccf_bins;
                     ccf_dist =
                       map (\<lambda>x. beta_pdf x (alt_cnt + 1) (ref_cnt + 1)) ccf_domain_in_af_space
                 in Inr (Dist (arr_div ccf_dist (py_sum ccf_dist))))))"

definition cp_dist_from_params ::
  "real \<Rightarrow> real \<Rightarrow> nat \<Rightarrow> nat \<Rightarrow> real \<Rightarrow> int \<Rightarrow> error + dist_result" where
  "cp_dist_from_params mult total_cn alt_cnt ref_cnt purity grid_size =
     (if mult = 0
      then (case np_zeros grid_size of
              Inl e \<Rightarrow> Inl e
            | Inr zs \<Rightarrow>
                (case set_item zs 0 (Fin 1) of
                   Inl e \<Rightarrow> Inl e
                 | Inr ccf_dist \<Rightarrow> Inr (DistMean ccf_dist (Fin 0))))
      else (case np_linspace01 grid_size of
              Inl e \<Rightarrow> Inl e
            | Inr ccf_bins \<Rightarrow>
                (let cp_domain_in_af_space =
                       map (\<lambda>b. fdiv (Fin (b * mult)) (Fin (af_denom total_cn purity)))
                         ccf_bins;
                     ccf_dist =
                       map (\<lambda>x. beta_pdf x (alt_cnt + 1) (ref_cnt + 1)) cp_domain_in_af_space
                 in Inr (Dist (arr_div ccf_dist (py_sum ccf_dist))))))"

subsection \<open>\<^verbatim>\<open>calc_ccf\<close>\<close>

text \<open>Lines 34 to 36: the mode of the multiplicity-1 histogram and its binomial weight.\<close>

definition ccf_mode_of :: "arr \<Rightarrow> error + real" where
  "ccf_mode_of ccf_dist_m1 =
     (case np_argmax ccf_dist_m1 of Inl e \<Rightarrow> Inl e | Inr i \<Rightarrow> Inr (real i / 100))"

definition p_subclonal_of :: "real \<Rightarrow> real \<Rightarrow> real \<Rightarrow> nat \<Rightarrow> nat \<Rightarrow> fl" where
  "p_subclonal_of ccf_mode purity total_cn alt_cnt total_cov =
     (let af_mode = fdiv (Fin (ccf_mode * purity)) (Fin (af_denom total_cn purity))
      in binom_pmf alt_cnt total_cov af_mode)"

text \<open>
  Lines 37 to 48: \<^verbatim>\<open>p_clonal\<close>. Each loop adds \<^verbatim>\<open>calc_mult_weight\<close> of every element of
  its \<^verbatim>\<open>np.arange\<close> to the running value.
\<close>

definition add_mult_weights :: "fl \<Rightarrow> real list \<Rightarrow> real \<Rightarrow> real \<Rightarrow> nat \<Rightarrow> nat \<Rightarrow> fl" where
  "add_mult_weights p_clonal mults purity total_cn alt_cnt total_cov =
     foldl (\<lambda>p mult. fadd p (calc_mult_weight mult purity total_cn alt_cnt total_cov))
       p_clonal mults"

definition p_clonal_of :: "real \<Rightarrow> real \<Rightarrow> nat \<Rightarrow> nat \<Rightarrow> real \<Rightarrow> fl" where
  "p_clonal_of local_cn_a1 local_cn_a2 alt_cnt ref_cnt purity =
     (case get_clonal_cns local_cn_a1 of (clonal_cn_a1, subclonal_cn_a1, subclonal_frac_a1) \<Rightarrow>
      case get_clonal_cns local_cn_a2 of (clonal_cn_a2, subclonal_cn_a2, subclonal_frac_a2) \<Rightarrow>
        (let total_cov = alt_cnt + ref_cnt;
             total_cn = local_cn_a1 + local_cn_a2;
             p0 = add_mult_weights (Fin 0) (np_arange 2 (clonal_cn_a2 + 1))
                    purity total_cn alt_cnt total_cov;
             p1 = (if subclonal_frac_a1 \<noteq> 0
                   then add_mult_weights p0 (np_arange (subclonal_frac_a1 + 1) subclonal_cn_a1)
                          purity total_cn alt_cnt total_cov
                   else p0)
         in if subclonal_frac_a2 \<noteq> 0
            then add_mult_weights p1 (np_arange (subclonal_frac_a2 + 1) subclonal_cn_a2)
                   purity total_cn alt_cnt total_cov
            else p1))"

text \<open>Lines 51 to 60: the subclonal branch, normalised by its sum.\<close>

definition subc_ccf_hist_of ::
  "real \<Rightarrow> real \<Rightarrow> nat \<Rightarrow> nat \<Rightarrow> real \<Rightarrow> int \<Rightarrow> arr \<Rightarrow> fl \<Rightarrow> error + arr" where
  "subc_ccf_hist_of local_cn_a1 local_cn_a2 alt_cnt ref_cnt purity grid_size ccf_dist_m1
       p_subclonal =
     (case get_clonal_cns local_cn_a1 of (clonal_cn_a1, subclonal_cn_a1, subclonal_frac_a1) \<Rightarrow>
      case get_clonal_cns local_cn_a2 of (clonal_cn_a2, subclonal_cn_a2, subclonal_frac_a2) \<Rightarrow>
        (let total_cov = alt_cnt + ref_cnt;
             total_cn = local_cn_a1 + local_cn_a2
         in case np_zeros grid_size of
              Inl e \<Rightarrow> Inl e
            | Inr zs \<Rightarrow>
           (case (if local_cn_a2 \<ge> 1
                  then arr_iadd zs (arr_scale ccf_dist_m1 p_subclonal)
                  else Inr zs) of
              Inl e \<Rightarrow> Inl e
            | Inr hist0 \<Rightarrow>
           (case (if subclonal_frac_a1 \<noteq> 0
                  then update_ccf_hist hist0 subclonal_frac_a1 ccf_dist_m1 purity total_cn
                         alt_cnt total_cov
                  else Inr hist0) of
              Inl e \<Rightarrow> Inl e
            | Inr hist1 \<Rightarrow>
           (case (if subclonal_frac_a2 \<noteq> 0
                  then update_ccf_hist hist1 subclonal_frac_a2 ccf_dist_m1 purity total_cn
                         alt_cnt total_cov
                  else Inr hist1) of
              Inl e \<Rightarrow> Inl e
            | Inr hist2 \<Rightarrow> Inr (arr_div hist2 (py_sum hist2)))))))"

text \<open>Lines 62 to 64: the clonal branch, a Beta(\<open>alt_cnt + 1\<close>, 1) density on the grid.\<close>

definition clonal_ccf_hist_of :: "nat \<Rightarrow> int \<Rightarrow> error + arr" where
  "clonal_ccf_hist_of alt_cnt grid_size =
     (case np_linspace01 grid_size of
        Inl e \<Rightarrow> Inl e
      | Inr bins \<Rightarrow>
          (let clonal_ccf_hist = map (\<lambda>b. beta_pdf (Fin b) (alt_cnt + 1) 1) bins
           in Inr (arr_div clonal_ccf_hist (py_sum clonal_ccf_hist))))"

text \<open>
  The whole function. With multiplicity 1 the distribution builders return an array; the
  tuple shape cannot reach the \<^verbatim>\<open>np.argmax\<close> call.
\<close>

definition calc_ccf ::
  "real \<Rightarrow> real \<Rightarrow> nat \<Rightarrow> nat \<Rightarrow> real \<Rightarrow> int \<Rightarrow> bool \<Rightarrow> error + arr" where
  "calc_ccf local_cn_a1 local_cn_a2 alt_cnt ref_cnt purity grid_size cp =
     (let total_cov = alt_cnt + ref_cnt;
          total_cn = local_cn_a1 + local_cn_a2
      in case (if cp
               then cp_dist_from_params 1 total_cn alt_cnt ref_cnt purity grid_size
               else ccf_dist_from_params 1 total_cn alt_cnt ref_cnt purity grid_size) of
           Inl e \<Rightarrow> Inl e
         | Inr (DistMean d m) \<Rightarrow> Inl TypeError
         | Inr (Dist ccf_dist_m1) \<Rightarrow>
        (case ccf_mode_of ccf_dist_m1 of
           Inl e \<Rightarrow> Inl e
         | Inr ccf_mode \<Rightarrow>
        (let p_subclonal = p_subclonal_of ccf_mode purity total_cn alt_cnt total_cov;
             p_clonal = p_clonal_of local_cn_a1 local_cn_a2 alt_cnt ref_cnt purity
         in case subc_ccf_hist_of local_cn_a1 local_cn_a2 alt_cnt ref_cnt purity grid_size
                   ccf_dist_m1 p_subclonal of
              Inl e \<Rightarrow> Inl e
            | Inr subc_ccf_hist \<Rightarrow>
           (case clonal_ccf_hist_of alt_cnt grid_size of
              Inl e \<Rightarrow> Inl e
            | Inr clonal_ccf_hist \<Rightarrow>
                (let ccf_hist =
                       map2 fadd (arr_scale subc_ccf_hist p_subclonal)
                         (arr_scale clonal_ccf_hist p_clonal)
                 in Inr (arr_div ccf_hist (py_sum ccf_hist)))))))"

section \<open>The specification's reading of \<^verbatim>\<open>p_clonal\<close>\<close>

text \<open>
  The specification describes \<^verbatim>\<open>p_clonal\<close> as a sum over integer multiplicities: those
  from 2 up to the clonal copy number of the major allele and, for an allele with a
  non-zero subclonal fraction, the integers strictly between that fraction and the
  allele's subclonal copy number. This definition follows those words; it is compared
  with \<open>p_clonal_of\<close> below.
\<close>

definition p_clonal_spec :: "real \<Rightarrow> real \<Rightarrow> nat \<Rightarrow> nat \<Rightarrow> real \<Rightarrow> fl" where
  "p_clonal_spec local_cn_a1 local_cn_a2 alt_cnt ref_cnt purity =
     (case get_clonal_cns local_cn_a1 of (clonal_cn_a1, subclonal_cn_a1, subclonal_frac_a1) \<Rightarrow>
      case get_clonal_cns local_cn_a2 of (clonal_cn_a2, subclonal_cn_a2, subclonal_frac_a2) \<Rightarrow>
        (let weight = (\<lambda>m. calc_mult_weight (real_of_int m) purity
                               (local_cn_a1 + local_cn_a2) alt_cnt (alt_cnt + ref_cnt))
         in fadd
              (fadd (py_sum (map weight [2..\<lfloor>clonal_cn_a2\<rfloor>]))
                 (if subclonal_frac_a1 \<noteq> 0
                  then py_sum (map weight [\<lfloor>subclonal_frac_a1\<rfloor> + 1..\<lceil>subclonal_cn_a1\<rceil> - 1])
                  else Fin 0))
              (if subclonal_frac_a2 \<noteq> 0
               then py_sum (map weight [\<lfloor>subclonal_frac_a2\<rfloor> + 1..\<lceil>subclonal_cn_a2\<rceil> - 1])
               else Fin 0)))"

section \<open>The specification's reading of the truncated copies\<close>

text \<open>
  The specification describes what one truncated copy contributes in
  \<^verbatim>\<open>update_ccf_hist\<close>: the copy renormalised by its sum and weighted by the binomial
  likelihood of the boundary allele fraction; and that a copy whose sum is zero is
  skipped. The two definitions follow those words.
\<close>

definition weighted_copy :: "arr \<Rightarrow> real \<Rightarrow> real \<Rightarrow> real \<Rightarrow> nat \<Rightarrow> nat \<Rightarrow> arr" where
  "weighted_copy copy fraction purity total_cn alt_cnt total_cov =
     arr_scale (arr_div copy (py_sum copy))
       (binom_pmf alt_cnt total_cov
          (fdiv (Fin (fraction * purity)) (Fin (af_denom total_cn purity))))"

definition add_unless_zero_sum :: "arr \<Rightarrow> arr \<Rightarrow> arr \<Rightarrow> arr" where
  "add_unless_zero_sum hist copy contribution =
     (if py_sum copy = Fin 0 then hist else map2 fadd hist contribution)"

section \<open>Properties\<close>

subsection \<open>Float addition and sums\<close>

lemma fadd_assoc: "fadd (fadd a b) c = fadd a (fadd b c)"
  by (cases a; cases b; cases c) simp_all

lemma fadd_zero_left [simp]: "fadd (Fin 0) x = x"
  by (cases x) simp_all

lemma fadd_zero_right [simp]: "fadd x (Fin 0) = x"
  by (cases x) simp_all

lemma foldl_fadd: "foldl fadd a xs = fadd a (foldl fadd (Fin 0) xs)"
proof (induction xs arbitrary: a)
  case Nil
  show ?case by simp
next
  case (Cons x xs)
  have "foldl fadd a (x # xs) = fadd (fadd a x) (foldl fadd (Fin 0) xs)"
    using Cons.IH [of "fadd a x"] by simp
  also have "\<dots> = fadd a (fadd x (foldl fadd (Fin 0) xs))"
    by (rule fadd_assoc)
  also have "fadd x (foldl fadd (Fin 0) xs) = foldl fadd (Fin 0) (x # xs)"
    using Cons.IH [of x] by simp
  finally show ?case .
qed

lemma add_mult_weights_sum:
  "add_mult_weights p mults purity total_cn alt_cnt total_cov =
     fadd p (py_sum (map (\<lambda>m. calc_mult_weight m purity total_cn alt_cnt total_cov) mults))"
proof -
  have "add_mult_weights p mults purity total_cn alt_cnt total_cov =
      foldl fadd p (map (\<lambda>m. calc_mult_weight m purity total_cn alt_cnt total_cov) mults)"
    by (simp add: add_mult_weights_def foldl_map)
  also have "\<dots> = fadd p (foldl fadd (Fin 0)
      (map (\<lambda>m. calc_mult_weight m purity total_cn alt_cnt total_cov) mults))"
    by (rule foldl_fadd)
  finally show ?thesis
    by (simp only: py_sum_def)
qed

lemma py_sum_Nil [simp]: "py_sum [] = Fin 0"
  by (simp add: py_sum_def)

lemma py_sum_Cons: "py_sum (x # xs) = fadd x (py_sum xs)"
  using foldl_fadd [of x xs] by (simp add: py_sum_def)

lemma fadd_Fin_cases:
  assumes "fadd x y = Fin s"
  obtains a b where "x = Fin a" and "y = Fin b" and "s = a + b"
proof -
  have "\<exists>a b. x = Fin a \<and> y = Fin b \<and> s = a + b"
    using assms by (cases x; cases y) auto
  then show thesis using that by blast
qed

lemma py_sum_Fin_cases:
  assumes "py_sum xs = Fin s"
  obtains rs where "xs = map Fin rs" and "s = sum_list rs"
  using assms
proof (induction xs arbitrary: s thesis)
  case Nil
  show ?case
    using Nil.prems(2) by (intro Nil.prems(1) [of "[]"]) simp_all
next
  case (Cons x xs)
  from Cons.prems(2) have "fadd x (py_sum xs) = Fin s"
    by (simp add: py_sum_Cons)
  then obtain a b where ab: "x = Fin a" "py_sum xs = Fin b" "s = a + b"
    by (rule fadd_Fin_cases)
  obtain rs where rs: "xs = map Fin rs" "b = sum_list rs"
    using Cons.IH [OF _ ab(2)] by blast
  show ?case
    using ab rs by (intro Cons.prems(1) [of "a # rs"]) simp_all
qed

lemma py_sum_map_Fin: "py_sum (map Fin rs) = Fin (sum_list rs)"
  by (induction rs) (simp_all add: py_sum_Cons)

lemma arr_div_map_Fin:
  "s \<noteq> 0 \<Longrightarrow> arr_div (map Fin rs) (Fin s) = map Fin (map (\<lambda>r. r / s) rs)"
  by (simp add: arr_div_def)


lemma sum_list_divide: "sum_list (map (\<lambda>r. r / s) rs) = sum_list rs / (s::real)"
  by (induction rs) (simp_all add: add_divide_distrib)

lemma py_sum_normalised:
  assumes "py_sum xs = Fin s" and "s \<noteq> 0"
  shows "py_sum (arr_div xs (py_sum xs)) = Fin 1"
proof -
  obtain rs where rs: "xs = map Fin rs" "s = sum_list rs"
    using assms(1) by (rule py_sum_Fin_cases)
  have "py_sum (arr_div xs (py_sum xs)) = py_sum (map Fin (map (\<lambda>r. r / s) rs))"
    using assms by (simp add: rs(1) arr_div_map_Fin)
  also have "\<dots> = Fin (sum_list rs / s)"
    by (simp only: py_sum_map_Fin sum_list_divide)
  finally show ?thesis
    using assms(2) rs(2) by simp
qed

lemma truthy_iff: "truthy x \<longleftrightarrow> x \<noteq> Fin 0"
  by (cases x) simp_all

lemma truncated_copies_length:
  assumes "truncated_copies f d = Inr (d1, d2)"
  shows "length d1 = length d \<and> length d2 = length d"
  using assms
  by (auto simp: truncated_copies_def zero_tail_def slice_start_def set_item_def Let_def
        split: sum.splits if_splits)

lemma arr_iadd_same_length: "length b = length a \<Longrightarrow> arr_iadd a b = Inr (map2 fadd a b)"
  by (simp add: arr_iadd_def)

lemma py_sum_zeros: "py_sum (replicate n (Fin 0)) = Fin 0"
  by (induction n) (simp_all add: py_sum_def)

lemma foldl_fadd_NaN: "foldl fadd NaN xs = NaN"
  by (induction xs) simp_all

lemma py_sum_NaNs: "0 < n \<Longrightarrow> py_sum (replicate n NaN) = NaN"
  by (cases n) (simp_all add: py_sum_def foldl_fadd_NaN)

lemma fmul_NaN_left [simp]: "fmul NaN y = NaN"
  by simp

lemma fdiv_NaN_right [simp]: "fdiv x NaN = NaN"
  by (cases x) simp_all

lemma map2_fadd_NaNs:
  "length ys = n \<Longrightarrow> map2 fadd (replicate n NaN) ys = replicate n NaN"
  by (induction n arbitrary: ys) (auto simp: length_Suc_conv)

lemma py_sum_append: "py_sum (xs @ ys) = fadd (py_sum xs) (py_sum ys)"
  by (induction xs) (simp_all add: py_sum_Cons fadd_assoc)

lemma py_sum_replicate_Fin: "py_sum (replicate n (Fin c)) = Fin (real n * c)"
  by (induction n) (simp_all add: py_sum_Cons algebra_simps)

subsection \<open>The decomposition of a copy number\<close>

text \<open>
  Claim C8. For every real copy number \<open>cn \<ge> 0\<close>, \<^verbatim>\<open>get_clonal_cns\<close> returns a clonal
  and a subclonal copy number that are non-negative integers differing by at most 1, and
  a subclonal fraction in \<open>[0,1]\<close>; when \<open>cn\<close> is an integer the fraction is 0.
\<close>

theorem get_clonal_cns_invariant:
  assumes "0 \<le> cn"
  shows "case get_clonal_cns cn of (clonal_cn, subclonal_cn, subclonal_frac) \<Rightarrow>
           (\<exists>i j :: nat. clonal_cn = real i \<and> subclonal_cn = real j)
           \<and> \<bar>clonal_cn - subclonal_cn\<bar> \<le> 1
           \<and> 0 \<le> subclonal_frac \<and> subclonal_frac \<le> 1
           \<and> (cn \<in> \<int> \<longrightarrow> subclonal_frac = 0)"
proof -
  have fl0: "0 \<le> \<lfloor>cn\<rfloor>" and ce0: "0 \<le> \<lceil>cn\<rceil>"
    using assms by (simp_all add: ceiling_le_iff le_ceiling_iff)
  have nat_fl: "real_of_int \<lfloor>cn\<rfloor> = real (nat \<lfloor>cn\<rfloor>)"
    and nat_ce: "real_of_int \<lceil>cn\<rceil> = real (nat \<lceil>cn\<rceil>)"
    using fl0 ce0 by simp_all
  have ints: "\<exists>i j :: nat. real_of_int \<lfloor>cn\<rfloor> = real i \<and> real_of_int \<lceil>cn\<rceil> = real j"
    using nat_fl nat_ce by blast
  have ints': "\<exists>i j :: nat. real_of_int \<lceil>cn\<rceil> = real i \<and> real_of_int \<lfloor>cn\<rfloor> = real j"
    using nat_fl nat_ce by blast
  have "\<lfloor>cn\<rfloor> \<le> \<lceil>cn\<rceil>" and "\<lceil>cn\<rceil> - \<lfloor>cn\<rfloor> \<le> 1"
    by (rule floor_le_ceiling, rule ceiling_diff_floor_le_1)
  then have gap: "\<bar>real_of_int \<lfloor>cn\<rfloor> - real_of_int \<lceil>cn\<rceil>\<bar> \<le> 1"
    and gap': "\<bar>real_of_int \<lceil>cn\<rceil> - real_of_int \<lfloor>cn\<rfloor>\<bar> \<le> 1"
    by linarith+
  have lo: "0 \<le> cn - real_of_int \<lfloor>cn\<rfloor>" and hi: "cn - real_of_int \<lfloor>cn\<rfloor> \<le> 1"
    and lo': "0 \<le> real_of_int \<lceil>cn\<rceil> - cn" and hi': "real_of_int \<lceil>cn\<rceil> - cn \<le> 1"
    by linarith+
  have whole: "cn \<in> \<int> \<Longrightarrow> cn - real_of_int \<lfloor>cn\<rfloor> = 0 \<and> real_of_int \<lceil>cn\<rceil> - cn = 0"
    by (auto elim: Ints_cases)
  show ?thesis
  proof (cases "1 < cn")
    case True
    then have "get_clonal_cns cn
        = (real_of_int \<lfloor>cn\<rfloor>, real_of_int \<lceil>cn\<rceil>, cn - real_of_int \<lfloor>cn\<rfloor>)"
      by (simp add: get_clonal_cns_def Let_def)
    with ints gap lo hi whole show ?thesis by simp
  next
    case False
    then have "get_clonal_cns cn
        = (real_of_int \<lceil>cn\<rceil>, real_of_int \<lfloor>cn\<rfloor>, real_of_int \<lceil>cn\<rceil> - cn)"
      by (simp add: get_clonal_cns_def Let_def)
    with ints' gap' lo' hi' whole show ?thesis by simp
  qed
qed

theorem get_clonal_cns_invariant_witness:
  "(0::real) \<le> 5 / 2 \<and> get_clonal_cns (5 / 2) = (2, 3, 1 / 2)
   \<and> (case get_clonal_cns (5 / 2) of (clonal_cn, subclonal_cn, subclonal_frac) \<Rightarrow>
        (\<exists>i j :: nat. clonal_cn = real i \<and> subclonal_cn = real j)
        \<and> \<bar>clonal_cn - subclonal_cn\<bar> \<le> 1
        \<and> 0 \<le> subclonal_frac \<and> subclonal_frac \<le> 1
        \<and> ((5 / 2 :: real) \<in> \<int> \<longrightarrow> subclonal_frac = 0))"
proof -
  have h: "(0::real) \<le> 5 / 2" by simp
  have v: "get_clonal_cns (5 / 2) = (2, 3, 1 / 2)"
    by (simp add: get_clonal_cns_def Let_def)
  show ?thesis
    using h v get_clonal_cns_invariant [OF h] by simp
qed

subsection \<open>The clonal likelihood \<^verbatim>\<open>p_clonal\<close>\<close>

lemma upt_from_two: "map (\<lambda>i. i + 2) [0..<m - 2] = [2..<m]"
proof (cases "2 \<le> m")
  case True
  then have "m - 2 + 2 = m" by simp
  then show ?thesis using map_add_upt [of 2 "m - 2"] by simp
next
  case False
  then show ?thesis by simp
qed

lemma arange_from_two: "np_arange 2 (real_of_int z + 1) = map real [2..<Suc (nat z)]"
proof -
  have "\<lceil>real_of_int z + 1 - 2\<rceil> = z - 1"
    by (simp add: ceiling_eq_iff)
  then have n: "nat \<lceil>real_of_int z + 1 - 2\<rceil> = Suc (nat z) - 2"
    by simp
  have "map (\<lambda>i. 2 + real i) [0..<Suc (nat z) - 2]
      = map real (map (\<lambda>i. i + 2) [0..<Suc (nat z) - 2])"
    by (simp add: o_def add.commute)
  also have "\<dots> = map real [2..<Suc (nat z)]"
    by (simp only: upt_from_two)
  finally show ?thesis
    unfolding np_arange_def n .
qed

lemma arange_offsets: "np_arange (f + 1) s = map (\<lambda>j. f + real j) [1..<nat \<lceil>s - f\<rceil>]"
proof -
  have n: "nat \<lceil>s - (f + 1)\<rceil> = nat \<lceil>s - f\<rceil> - 1"
  proof -
    have "\<lceil>s - (f + 1)\<rceil> = \<lceil>s - f\<rceil> - 1"
      by (simp add: algebra_simps flip: ceiling_diff_one)
    then show ?thesis by (simp add: nat_diff_distrib')
  qed
  have "[1..<nat \<lceil>s - f\<rceil>] = map Suc [0..<nat \<lceil>s - f\<rceil> - 1]"
    by (cases "nat \<lceil>s - f\<rceil>") (simp_all add: map_Suc_upt)
  then have "map (\<lambda>j. f + real j) [1..<nat \<lceil>s - f\<rceil>]
      = map (\<lambda>i. f + 1 + real i) [0..<nat \<lceil>s - f\<rceil> - 1]"
    by (simp add: o_def add.assoc)
  then show ?thesis
    unfolding np_arange_def n by simp
qed


lemma get_clonal_cns_clonal_int:
  "get_clonal_cns cn = (c, s, f) \<Longrightarrow> c = real_of_int \<lfloor>c\<rfloor>"
  by (auto simp: get_clonal_cns_def Let_def split: if_splits)

text \<open>
  Claim C3, as the specification words it, does not hold: the two loops over
  \<^verbatim>\<open>np.arange(subclonal_frac + 1, subclonal_cn)\<close> visit the multiplicities
  \<open>f + 1, f + 2, \<dots>\<close> below the subclonal copy number, which are not integers when
  \<open>f\<close> is a proper fraction. With copy numbers 0 and 2.5, one alt read, no ref read and
  purity 1 the program adds the weights of 2, 1.5 and 2.5, which is 12/5; the integers
  of the claim, 2 and then 1 and 2, give 2.
\<close>

theorem p_clonal_integer_range_counterexample:
  "p_clonal_of 0 (5 / 2) 1 0 1 = Fin (12 / 5)
   \<and> p_clonal_spec 0 (5 / 2) 1 0 1 = Fin 2
   \<and> p_clonal_of 0 (5 / 2) 1 0 1 \<noteq> p_clonal_spec 0 (5 / 2) 1 0 1"
proof -
  have a: "p_clonal_of 0 (5 / 2) 1 0 1 = Fin (12 / 5)"
    by (simp add: p_clonal_of_def get_clonal_cns_def Let_def np_arange_def upt_conv_Cons
          add_mult_weights_def calc_mult_weight_def af_denom_def)
  have b: "p_clonal_spec 0 (5 / 2) 1 0 1 = Fin 2"
    by (simp add: p_clonal_spec_def get_clonal_cns_def Let_def py_sum_def upto.simps
          calc_mult_weight_def af_denom_def)
  show ?thesis
    unfolding a b by simp
qed

text \<open>
  Claim C3, amended. \<^verbatim>\<open>p_clonal\<close> is the sum of \<^verbatim>\<open>calc_mult_weight\<close> over the integer
  multiplicities from 2 up to and including the clonal copy number of the major allele,
  plus, for each allele whose subclonal fraction \<open>f\<close> is not zero, the sum of the same
  weight over the multiplicities \<open>f + 1, f + 2, \<dots>\<close> that lie strictly below that
  allele's subclonal copy number.
\<close>

theorem p_clonal_of_offsets:
  "p_clonal_of local_cn_a1 local_cn_a2 alt_cnt ref_cnt purity =
     (case get_clonal_cns local_cn_a1 of (clonal_cn_a1, subclonal_cn_a1, subclonal_frac_a1) \<Rightarrow>
      case get_clonal_cns local_cn_a2 of (clonal_cn_a2, subclonal_cn_a2, subclonal_frac_a2) \<Rightarrow>
        (let weight = (\<lambda>m. calc_mult_weight m purity (local_cn_a1 + local_cn_a2)
                               alt_cnt (alt_cnt + ref_cnt))
         in fadd
              (fadd (py_sum (map weight (map real [2..<Suc (nat \<lfloor>clonal_cn_a2\<rfloor>)])))
                 (if subclonal_frac_a1 \<noteq> 0
                  then py_sum (map weight
                         (map (\<lambda>j. subclonal_frac_a1 + real j)
                            [1..<nat \<lceil>subclonal_cn_a1 - subclonal_frac_a1\<rceil>]))
                  else Fin 0))
              (if subclonal_frac_a2 \<noteq> 0
               then py_sum (map weight
                      (map (\<lambda>j. subclonal_frac_a2 + real j)
                         [1..<nat \<lceil>subclonal_cn_a2 - subclonal_frac_a2\<rceil>]))
               else Fin 0)))"
proof -
  obtain c1 s1 f1 where g1: "get_clonal_cns local_cn_a1 = (c1, s1, f1)"
    by (cases "get_clonal_cns local_cn_a1") auto
  obtain c2 s2 f2 where g2: "get_clonal_cns local_cn_a2 = (c2, s2, f2)"
    by (cases "get_clonal_cns local_cn_a2") auto
  have "c2 = real_of_int \<lfloor>c2\<rfloor>"
    using g2 by (rule get_clonal_cns_clonal_int)
  then have first: "np_arange 2 (c2 + 1) = map real [2..<Suc (nat \<lfloor>c2\<rfloor>)]"
    using arange_from_two [of "\<lfloor>c2\<rfloor>"] by simp
  show ?thesis
    unfolding p_clonal_of_def g1 g2
    by (simp only: prod.case Let_def add_mult_weights_sum first arange_offsets
          fadd_zero_left fadd_zero_right fadd_assoc if_distrib [of "fadd _"] cong: if_cong)
qed


subsection \<open>The two distribution builders\<close>

text \<open>
  Claim C10. At purity 1 the two mapping modes coincide: for every multiplicity, total
  copy number, alt count, ref count and grid size, \<^verbatim>\<open>cp_dist_from_params\<close> returns what
  \<^verbatim>\<open>ccf_dist_from_params\<close> returns on the same arguments (the same histogram, or the
  same exception).
\<close>

theorem cp_dist_eq_ccf_dist_at_purity_one:
  "cp_dist_from_params mult total_cn alt_cnt ref_cnt 1 grid_size
     = ccf_dist_from_params mult total_cn alt_cnt ref_cnt 1 grid_size"
  by (simp add: cp_dist_from_params_def ccf_dist_from_params_def cong: sum.case_cong)

lemma one_hot_zeros:
  assumes "0 < grid_size"
  shows "(case np_zeros grid_size of Inl e \<Rightarrow> Inl e
          | Inr zs \<Rightarrow> (case set_item zs 0 (Fin 1) of Inl e \<Rightarrow> Inl e
                        | Inr ccf_dist \<Rightarrow> Inr (DistMean ccf_dist (Fin 0))))
         = Inr (DistMean (Fin 1 # replicate (nat grid_size - 1) (Fin 0)) (Fin 0))"
proof -
  obtain n where n: "nat grid_size = Suc n"
    using assms by (cases "nat grid_size") auto
  have z: "np_zeros grid_size = Inr (replicate (Suc n) (Fin 0))"
    using assms n by (simp add: np_zeros_def)
  have "set_item (replicate (Suc n) (Fin 0)) 0 (Fin 1) = Inr (Fin 1 # replicate n (Fin 0))"
    by (simp add: set_item_def)
  with z n show ?thesis by simp
qed

text \<open>
  Claim C6, as stated for every grid size and with a bare vector as the result, does not
  hold. With \<^verbatim>\<open>grid_size = 0\<close> the assignment \<^verbatim>\<open>ccf_dist[0] = 1.\<close> raises
  \<^verbatim>\<open>IndexError\<close>, and for a positive grid size the multiplicity-0 branch returns the
  tuple \<^verbatim>\<open>(ccf_dist, 0.)\<close>, not the array alone.
\<close>

theorem zero_multiplicity_counterexample:
  "ccf_dist_from_params 0 2 20 20 1 0 = Inl IndexError
   \<and> cp_dist_from_params 0 2 20 20 1 0 = Inl IndexError
   \<and> ccf_dist_from_params 0 2 20 20 1 3 = Inr (DistMean [Fin 1, Fin 0, Fin 0] (Fin 0))
   \<and> cp_dist_from_params 0 2 20 20 1 3 = Inr (DistMean [Fin 1, Fin 0, Fin 0] (Fin 0))"
  by (simp add: ccf_dist_from_params_def cp_dist_from_params_def np_zeros_def set_item_def
        numeral_eq_Suc)

text \<open>
  Claim C6, amended. For every positive grid size and arbitrary other arguments,
  \<^verbatim>\<open>ccf_dist_from_params\<close> and \<^verbatim>\<open>cp_dist_from_params\<close> called with multiplicity 0 return
  the pair of a one-hot vector of length \<^verbatim>\<open>grid_size\<close> (1.0 at index 0, 0 everywhere
  else) and the float 0.0.
\<close>

theorem zero_multiplicity_one_hot:
  assumes "0 < grid_size"
  shows "ccf_dist_from_params 0 total_cn alt_cnt ref_cnt purity grid_size
           = Inr (DistMean (Fin 1 # replicate (nat grid_size - 1) (Fin 0)) (Fin 0))
         \<and> cp_dist_from_params 0 total_cn alt_cnt ref_cnt purity grid_size
           = Inr (DistMean (Fin 1 # replicate (nat grid_size - 1) (Fin 0)) (Fin 0))"
  using one_hot_zeros [OF assms]
  by (simp add: ccf_dist_from_params_def cp_dist_from_params_def)

theorem zero_multiplicity_one_hot_witness:
  "(0::int) < 3
   \<and> ccf_dist_from_params 0 2 20 20 1 3 = Inr (DistMean [Fin 1, Fin 0, Fin 0] (Fin 0))
   \<and> cp_dist_from_params 0 2 20 20 1 3 = Inr (DistMean [Fin 1, Fin 0, Fin 0] (Fin 0))"
proof -
  have h: "(0::int) < 3" by simp
  have r: "replicate (nat 3 - 1) (Fin 0) = [Fin 0, Fin 0]"
    by (simp add: numeral_eq_Suc)
  show ?thesis
    using h zero_multiplicity_one_hot [OF h, of 2 20 20 1] unfolding r by simp
qed

subsection \<open>The truncated copies in \<^verbatim>\<open>update_ccf_hist\<close>\<close>

lemma replicate_update:
  "i < n \<Longrightarrow> (replicate n x)[i := y] = replicate i x @ y # replicate (n - Suc i) x"
  by (simp add: upd_conv_take_nth_drop min_def)

lemma truncated_copies_uniform:
  "truncated_copies (1 / 4) (replicate 101 (Fin c))
     = Inr (replicate 25 (Fin c) @ replicate 76 (Fin 0),
            replicate 75 (Fin c) @ Fin 0 # replicate 25 (Fin c))"
  by (simp add: truncated_copies_def py_int_def zero_tail_def slice_start_def set_item_def
        replicate_update)

text \<open>
  Claim C4 at a concrete histogram. With the uniform histogram on 101 bins and
  \<open>f = 0.25\<close>, the first copy is zero from bin 25 on, as the claim says. The second
  copy is zero at bin 75 only: line 93 assigns to the single index
  \<^verbatim>\<open>int((1 - subclonal_frac) * 100)\<close>, where line 92 assigns to the slice from its index
  on, so the bins 76 to 100 of the second copy keep the value 1/101.
\<close>

theorem truncated_copies_second_copy_single_bin:
  "truncated_copies (1 / 4) (replicate 101 (Fin (1 / 101)))
     = Inr (replicate 25 (Fin (1 / 101)) @ replicate 76 (Fin 0),
            replicate 75 (Fin (1 / 101)) @ Fin 0 # replicate 25 (Fin (1 / 101)))
   \<and> (replicate 75 (Fin (1 / 101)) @ Fin 0 # replicate 25 (Fin (1 / 101))) ! 76 = Fin (1 / 101)"
  by (simp add: truncated_copies_uniform nth_append)

lemma update_ccf_hist_steps:
  assumes "truncated_copies subclonal_frac ccf_dist_m1 = Inr (subc_ccf_dist1, subc_ccf_dist2)"
    and "length subc_ccf_hist = length ccf_dist_m1"
  shows "update_ccf_hist subc_ccf_hist subclonal_frac ccf_dist_m1 purity total_cn alt_cnt total_cov
           = Inr (add_unless_zero_sum
                    (add_unless_zero_sum subc_ccf_hist subc_ccf_dist1
                       (weighted_copy subc_ccf_dist1 subclonal_frac purity total_cn
                          alt_cnt total_cov))
                    subc_ccf_dist2
                    (weighted_copy subc_ccf_dist2 (1 - subclonal_frac) purity total_cn
                       alt_cnt total_cov))"
proof -
  have len: "length subc_ccf_dist1 = length ccf_dist_m1" "length subc_ccf_dist2 = length ccf_dist_m1"
    using truncated_copies_length [OF assms(1)] by simp_all
  let ?w1 = "weighted_copy subc_ccf_dist1 subclonal_frac purity total_cn alt_cnt total_cov"
  let ?w2 = "weighted_copy subc_ccf_dist2 (1 - subclonal_frac) purity total_cn alt_cnt total_cov"
  let ?h1 = "add_unless_zero_sum subc_ccf_hist subc_ccf_dist1 ?w1"
  have lw: "length ?w1 = length subc_ccf_hist" "length ?w2 = length subc_ccf_hist"
    by (simp_all add: weighted_copy_def arr_scale_def arr_div_def len assms(2))
  have lh1: "length ?h1 = length subc_ccf_hist"
    by (simp add: add_unless_zero_sum_def lw)
  have step1:
    "(if truthy (py_sum subc_ccf_dist1)
      then arr_iadd subc_ccf_hist ?w1 else Inr subc_ccf_hist) = Inr ?h1"
    by (simp add: truthy_iff add_unless_zero_sum_def arr_iadd_same_length lw)
  have step2:
    "(if truthy (py_sum subc_ccf_dist2) then arr_iadd ?h1 ?w2 else Inr ?h1)
       = Inr (add_unless_zero_sum ?h1 subc_ccf_dist2 ?w2)"
    by (simp add: truthy_iff add_unless_zero_sum_def [of ?h1] arr_iadd_same_length lw lh1)
  have "update_ccf_hist subc_ccf_hist subclonal_frac ccf_dist_m1 purity total_cn alt_cnt total_cov
      = (case (if truthy (py_sum subc_ccf_dist1)
               then arr_iadd subc_ccf_hist ?w1 else Inr subc_ccf_hist) of
           Inl e \<Rightarrow> Inl e
         | Inr hist1 \<Rightarrow>
             (if truthy (py_sum subc_ccf_dist2)
              then arr_iadd hist1
                     (weighted_copy subc_ccf_dist2 (1 - subclonal_frac) purity total_cn
                        alt_cnt total_cov)
              else Inr hist1))"
    by (simp only: update_ccf_hist_def assms(1) sum.case prod.case Let_def weighted_copy_def)
  also have "\<dots> = Inr (add_unless_zero_sum ?h1 subc_ccf_dist2 ?w2)"
    by (simp only: step1 sum.case step2)
  finally show ?thesis .
qed


text \<open>
  Claim C9. In \<^verbatim>\<open>update_ccf_hist\<close>, once the two truncated copies exist and the running
  histogram has the length of the multiplicity-1 histogram, the function returns the
  running histogram to which each copy has been added unless its sum is zero: a copy
  that sums to zero is skipped and the result is what it would be without that branch.
  A copy whose sum is a non-zero number is renormalised to sum to 1 and added scaled by
  the binomial probability of \<^verbatim>\<open>alt_cnt\<close> at the boundary allele fraction derived from
  \<open>f\<close> for the first copy and from \<open>1 - f\<close> for the second.
\<close>

theorem update_ccf_hist_skips_zero_sum_copies:
  assumes "truncated_copies subclonal_frac ccf_dist_m1 = Inr (subc_ccf_dist1, subc_ccf_dist2)"
    and "length subc_ccf_hist = length ccf_dist_m1"
  shows "update_ccf_hist subc_ccf_hist subclonal_frac ccf_dist_m1 purity total_cn alt_cnt total_cov
           = Inr (add_unless_zero_sum
                    (add_unless_zero_sum subc_ccf_hist subc_ccf_dist1
                       (weighted_copy subc_ccf_dist1 subclonal_frac purity total_cn
                          alt_cnt total_cov))
                    subc_ccf_dist2
                    (weighted_copy subc_ccf_dist2 (1 - subclonal_frac) purity total_cn
                       alt_cnt total_cov))
         \<and> (\<forall>s. py_sum subc_ccf_dist1 = Fin s \<and> s \<noteq> 0
                \<longrightarrow> py_sum (arr_div subc_ccf_dist1 (py_sum subc_ccf_dist1)) = Fin 1)
         \<and> (\<forall>s. py_sum subc_ccf_dist2 = Fin s \<and> s \<noteq> 0
                \<longrightarrow> py_sum (arr_div subc_ccf_dist2 (py_sum subc_ccf_dist2)) = Fin 1)"
  using update_ccf_hist_steps [OF assms] py_sum_normalised by blast


theorem update_ccf_hist_skips_zero_sum_copies_witness:
  "truncated_copies (1 / 4) (replicate 101 (Fin (1 / 101)))
     = Inr (replicate 25 (Fin (1 / 101)) @ replicate 76 (Fin 0),
            replicate 75 (Fin (1 / 101)) @ Fin 0 # replicate 25 (Fin (1 / 101)))
   \<and> length (replicate 101 (Fin 0)) = length (replicate 101 (Fin (1 / 101)))
   \<and> update_ccf_hist (replicate 101 (Fin 0)) (1 / 4) (replicate 101 (Fin (1 / 101))) 1 2 20 40
       = Inr (add_unless_zero_sum
                (add_unless_zero_sum (replicate 101 (Fin 0))
                   (replicate 25 (Fin (1 / 101)) @ replicate 76 (Fin 0))
                   (weighted_copy (replicate 25 (Fin (1 / 101)) @ replicate 76 (Fin 0))
                      (1 / 4) 1 2 20 40))
                (replicate 75 (Fin (1 / 101)) @ Fin 0 # replicate 25 (Fin (1 / 101)))
                (weighted_copy (replicate 75 (Fin (1 / 101)) @ Fin 0 # replicate 25 (Fin (1 / 101)))
                   (1 - 1 / 4) 1 2 20 40))
   \<and> py_sum (arr_div (replicate 25 (Fin (1 / 101)) @ replicate 76 (Fin 0))
               (py_sum (replicate 25 (Fin (1 / 101)) @ replicate 76 (Fin 0)))) = Fin 1
   \<and> py_sum (arr_div (replicate 75 (Fin (1 / 101)) @ Fin 0 # replicate 25 (Fin (1 / 101)))
               (py_sum (replicate 75 (Fin (1 / 101)) @ Fin 0 # replicate 25 (Fin (1 / 101)))))
       = Fin 1"
proof -
  let ?d = "replicate 101 (Fin (1 / 101))"
  let ?a = "replicate 25 (Fin (1 / 101)) @ replicate 76 (Fin 0)"
  let ?b = "replicate 75 (Fin (1 / 101)) @ Fin 0 # replicate 25 (Fin (1 / 101))"
  have tc: "truncated_copies (1 / 4) ?d = Inr (?a, ?b)"
    by (rule truncated_copies_uniform)
  have len: "length (replicate 101 (Fin 0)) = length ?d"
    by simp
  have sa: "py_sum ?a = Fin (25 / 101) \<and> (25 / 101 :: real) \<noteq> 0"
    by (simp add: py_sum_append py_sum_replicate_Fin)
  have sb: "py_sum ?b = Fin (100 / 101) \<and> (100 / 101 :: real) \<noteq> 0"
    by (simp add: py_sum_append py_sum_Cons py_sum_replicate_Fin)
  show ?thesis
    using update_ccf_hist_skips_zero_sum_copies [OF tc len, of 1 2 20 40] tc len sa sb
    by blast
qed

subsection \<open>Copy number zero on both alleles\<close>

lemma linspace_length:
  assumes "0 \<le> grid_size"
  obtains bins where "np_linspace01 grid_size = Inr bins" and "length bins = nat grid_size"
  using assms by (cases "grid_size = 1") (simp_all add: np_linspace01_def)

lemma dist_m1_length:
  assumes "0 \<le> grid_size"
  obtains d where
    "(if cp then cp_dist_from_params 1 total_cn alt_cnt ref_cnt purity grid_size
      else ccf_dist_from_params 1 total_cn alt_cnt ref_cnt purity grid_size) = Inr (Dist d)"
    and "length d = nat grid_size"
proof -
  obtain bins where b: "np_linspace01 grid_size = Inr bins" "length bins = nat grid_size"
    using assms by (rule linspace_length)
  show thesis
    by (rule that [of "if cp
          then arr_div (map (\<lambda>x. beta_pdf x (alt_cnt + 1) (ref_cnt + 1))
                  (map (\<lambda>b. fdiv (Fin (b * 1)) (Fin (af_denom total_cn purity))) bins))
                 (py_sum (map (\<lambda>x. beta_pdf x (alt_cnt + 1) (ref_cnt + 1))
                  (map (\<lambda>b. fdiv (Fin (b * 1)) (Fin (af_denom total_cn purity))) bins)))
          else arr_div (map (\<lambda>x. beta_pdf x (alt_cnt + 1) (ref_cnt + 1))
                  (map (\<lambda>b. fdiv (Fin (b * 1 * purity)) (Fin (af_denom total_cn purity))) bins))
                 (py_sum (map (\<lambda>x. beta_pdf x (alt_cnt + 1) (ref_cnt + 1))
                  (map (\<lambda>b. fdiv (Fin (b * 1 * purity)) (Fin (af_denom total_cn purity))) bins)))"])
      (simp_all add: cp_dist_from_params_def ccf_dist_from_params_def b Let_def arr_div_def)
qed

lemma clonal_hist_length:
  assumes "0 \<le> grid_size"
  obtains c where "clonal_ccf_hist_of alt_cnt grid_size = Inr c" and "length c = nat grid_size"
proof -
  obtain bins where b: "np_linspace01 grid_size = Inr bins" "length bins = nat grid_size"
    using assms by (rule linspace_length)
  show thesis
    by (rule that [of "arr_div (map (\<lambda>b. beta_pdf (Fin b) (alt_cnt + 1) 1) bins)
          (py_sum (map (\<lambda>b. beta_pdf (Fin b) (alt_cnt + 1) 1) bins))"])
      (simp_all add: clonal_ccf_hist_of_def b Let_def arr_div_def)
qed

lemma ccf_mode_of_nonempty:
  assumes "d \<noteq> []"
  obtains m where "ccf_mode_of d = Inr m"
proof -
  obtain x r where "d = x # r"
    using assms by (cases d) auto
  then have "ccf_mode_of d = Inr (real (argmax_scan x 0 1 r) / 100)"
    by (simp add: ccf_mode_of_def np_argmax_def)
  then show thesis by (rule that)
qed

lemma subc_ccf_hist_zero_cn:
  assumes "0 < grid_size"
  shows "subc_ccf_hist_of 0 0 alt_cnt ref_cnt purity grid_size d p
           = Inr (replicate (nat grid_size) NaN)"
proof -
  have g: "get_clonal_cns 0 = (0, 0, 0)"
    by (simp add: get_clonal_cns_def)
  have z: "np_zeros grid_size = Inr (replicate (nat grid_size) (Fin 0))"
    using assms by (simp add: np_zeros_def)
  show ?thesis
    by (simp add: subc_ccf_hist_of_def g z py_sum_zeros arr_div_def)
qed

lemma calc_ccf_zero_cn:
  assumes "0 < grid_size"
  shows "calc_ccf 0 0 alt_cnt ref_cnt purity grid_size cp = Inr (replicate (nat grid_size) NaN)"
proof -
  have pos: "0 \<le> grid_size" "0 < nat grid_size"
    using assms by simp_all
  obtain d where d:
    "(if cp then cp_dist_from_params 1 (0 + 0) alt_cnt ref_cnt purity grid_size
      else ccf_dist_from_params 1 (0 + 0) alt_cnt ref_cnt purity grid_size) = Inr (Dist d)"
    "length d = nat grid_size"
    using pos(1) by (rule dist_m1_length)
  have "d \<noteq> []" using d(2) pos(2) by auto
  then obtain m where m: "ccf_mode_of d = Inr m"
    by (rule ccf_mode_of_nonempty)
  obtain c where c: "clonal_ccf_hist_of alt_cnt grid_size = Inr c" "length c = nat grid_size"
    using pos(1) by (rule clonal_hist_length)
  have len: "length (arr_scale c q) = nat grid_size" for q
    by (simp add: arr_scale_def c(2))
  have nans: "arr_scale (replicate (nat grid_size) NaN) q = replicate (nat grid_size) NaN" for q
    by (simp add: arr_scale_def)
  have fin: "arr_div (replicate (nat grid_size) NaN) NaN = replicate (nat grid_size) NaN"
    by (simp add: arr_div_def)
  show ?thesis
    unfolding calc_ccf_def Let_def d
    by (simp only: sum.case dist_result.case m subc_ccf_hist_zero_cn [OF assms] c(1) nans
          map2_fadd_NaNs [OF len] py_sum_NaNs [OF pos(2)] fin)
qed


lemma update_ccf_hist_both_skipped:
  assumes "truncated_copies f d = Inr (d1, d2)" and "py_sum d1 = Fin 0" and "py_sum d2 = Fin 0"
  shows "update_ccf_hist hist f d purity total_cn alt_cnt total_cov = Inr hist"
  by (simp only: update_ccf_hist_def assms sum.case prod.case Let_def truthy.simps
        simp_thms if_False)

text \<open>
  Claim C1 at a valid input. With both local copy numbers 0, 20 alt and 20 ref reads,
  purity 0.5 and 101 bins, the subclonal histogram is still all zero when line 60 divides
  it by its sum; the quotient 0/0 is \<open>NaN\<close> in every bin, and so is every bin of the
  returned histogram. The bins are neither non-negative nor do they sum to 1.
\<close>

theorem calc_ccf_zero_copy_numbers_all_nan:
  "calc_ccf 0 0 20 20 (1 / 2) 101 False = Inr (replicate 101 NaN)"
  using calc_ccf_zero_cn [of 101 20 20 "1 / 2" False] by simp

text \<open>
  Claim C7, as stated, does not hold. With both local copy numbers 0 and purity 1 (total
  copy number 0), \<^verbatim>\<open>calc_ccf\<close> raises nothing: it returns an array.
\<close>

theorem calc_ccf_zero_total_cn_counterexample:
  "calc_ccf 0 0 20 20 1 101 False = Inr (replicate 101 NaN)"
  using calc_ccf_zero_cn [of 101 20 20 1 False] by simp

text \<open>
  Claim C7, amended. When the total copy number is 0 and the purity is 1 (both local copy
  numbers zero at full purity), \<^verbatim>\<open>calc_ccf\<close> raises no error: for every positive grid
  size it returns an array of \<^verbatim>\<open>grid_size\<close> entries. The normalising divisions that are
  guarded against a zero sum are the two in \<^verbatim>\<open>update_ccf_hist\<close>: when both truncated
  copies sum to zero, the running histogram is returned unchanged.
\<close>

theorem calc_ccf_raises_nothing_at_zero_total_cn:
  assumes "0 < grid_size"
  shows "(\<exists>h. calc_ccf 0 0 alt_cnt ref_cnt 1 grid_size cp = Inr h \<and> length h = nat grid_size)
         \<and> (truncated_copies f d = Inr (d1, d2) \<and> py_sum d1 = Fin 0 \<and> py_sum d2 = Fin 0
              \<longrightarrow> update_ccf_hist hist f d purity total_cn alt_cnt total_cov = Inr hist)"
  using calc_ccf_zero_cn [OF assms, of alt_cnt ref_cnt 1 cp] update_ccf_hist_both_skipped
  by auto

theorem calc_ccf_raises_nothing_at_zero_total_cn_witness:
  "(0::int) < 101
   \<and> (\<exists>h. calc_ccf 0 0 20 20 1 101 False = Inr h \<and> length h = nat 101)
   \<and> truncated_copies (1 / 4) (replicate 101 (Fin 0))
       = Inr (replicate 25 (Fin 0) @ replicate 76 (Fin 0),
              replicate 75 (Fin 0) @ Fin 0 # replicate 25 (Fin 0))
   \<and> py_sum (replicate 25 (Fin 0) @ replicate 76 (Fin 0)) = Fin 0
   \<and> py_sum (replicate 75 (Fin 0) @ Fin 0 # replicate 25 (Fin 0)) = Fin 0
   \<and> update_ccf_hist (replicate 101 (Fin (1 / 101))) (1 / 4) (replicate 101 (Fin 0)) 1 2 20 40
       = Inr (replicate 101 (Fin (1 / 101)))"
proof -
  have h: "(0::int) < 101" by simp
  have tc: "truncated_copies (1 / 4) (replicate 101 (Fin 0))
       = Inr (replicate 25 (Fin 0) @ replicate 76 (Fin 0),
              replicate 75 (Fin 0) @ Fin 0 # replicate 25 (Fin 0))"
    by (rule truncated_copies_uniform)
  have sa: "py_sum (replicate 25 (Fin 0) @ replicate 76 (Fin 0)) = Fin 0"
    by (simp add: py_sum_append py_sum_replicate_Fin)
  have sb: "py_sum (replicate 75 (Fin 0) @ Fin 0 # replicate 25 (Fin 0)) = Fin 0"
    by (simp add: py_sum_append py_sum_Cons py_sum_replicate_Fin)
  show ?thesis
    using calc_ccf_raises_nothing_at_zero_total_cn [OF h, where alt_cnt = 20 and ref_cnt = 20
        and cp = False and f = "1 / 4" and d = "replicate 101 (Fin 0)"
        and ?d1.0 = "replicate 25 (Fin 0) @ replicate 76 (Fin 0)"
        and ?d2.0 = "replicate 75 (Fin 0) @ Fin 0 # replicate 25 (Fin 0)"
        and hist = "replicate 101 (Fin (1 / 101))" and purity = 1 and total_cn = 2
        and total_cov = 40] h tc sa sb
    by blast
qed


subsection \<open>The peak of the multiplicity-1 histogram\<close>

text \<open>
  On an array of finite values \<^verbatim>\<open>np.argmax\<close> returns the first index of a largest
  element. For a diploid locus at purity 1 with as many alt as ref reads, the
  multiplicity-1 histogram increases up to its last bin (allele fraction 1/2), so the
  peak is the last bin.
\<close>

lemma argmax_scan_finite:
  assumes "argmax_scan (Fin b) bi i (map Fin rs) = k"
  shows "(k = bi \<and> (\<forall>x\<in>set rs. x \<le> b)) \<or>
         (\<exists>j<length rs. k = i + j \<and> b < rs ! j \<and> (\<forall>x\<in>set rs. x \<le> rs ! j)
            \<and> (\<forall>x\<in>set (take j rs). x < rs ! j))"
  using assms
proof (induction rs arbitrary: b bi i)
  case Nil
  then show ?case by simp
next
  case (Cons r rs)
  show ?case
  proof (cases "b < r")
    case True
    with Cons.prems have "argmax_scan (Fin r) i (Suc i) (map Fin rs) = k"
      by simp
    from Cons.IH [OF this] show ?thesis
    proof
      assume "k = i \<and> (\<forall>x\<in>set rs. x \<le> r)"
      then have "0 < length (r # rs) \<and> k = i + 0 \<and> b < (r # rs) ! 0
          \<and> (\<forall>x\<in>set (r # rs). x \<le> (r # rs) ! 0)
          \<and> (\<forall>x\<in>set (take 0 (r # rs)). x < (r # rs) ! 0)"
        using True by simp
      then show ?thesis by blast
    next
      assume "\<exists>j<length rs. k = Suc i + j \<and> r < rs ! j \<and> (\<forall>x\<in>set rs. x \<le> rs ! j)
          \<and> (\<forall>x\<in>set (take j rs). x < rs ! j)"
      then obtain j where j: "j < length rs" "k = Suc i + j" "r < rs ! j"
          "\<forall>x\<in>set rs. x \<le> rs ! j" "\<forall>x\<in>set (take j rs). x < rs ! j"
        by blast
      then have "Suc j < length (r # rs) \<and> k = i + Suc j \<and> b < (r # rs) ! Suc j
          \<and> (\<forall>x\<in>set (r # rs). x \<le> (r # rs) ! Suc j)
          \<and> (\<forall>x\<in>set (take (Suc j) (r # rs)). x < (r # rs) ! Suc j)"
        using True by auto
      then show ?thesis by blast
    qed
  next
    case False
    with Cons.prems have "argmax_scan (Fin b) bi (Suc i) (map Fin rs) = k"
      by simp
    from Cons.IH [OF this] show ?thesis
    proof
      assume "k = bi \<and> (\<forall>x\<in>set rs. x \<le> b)"
      then show ?thesis using False by simp
    next
      assume "\<exists>j<length rs. k = Suc i + j \<and> b < rs ! j \<and> (\<forall>x\<in>set rs. x \<le> rs ! j)
          \<and> (\<forall>x\<in>set (take j rs). x < rs ! j)"
      then obtain j where j: "j < length rs" "k = Suc i + j" "b < rs ! j"
          "\<forall>x\<in>set rs. x \<le> rs ! j" "\<forall>x\<in>set (take j rs). x < rs ! j"
        by blast
      then have "Suc j < length (r # rs) \<and> k = i + Suc j \<and> b < (r # rs) ! Suc j
          \<and> (\<forall>x\<in>set (r # rs). x \<le> (r # rs) ! Suc j)
          \<and> (\<forall>x\<in>set (take (Suc j) (r # rs)). x < (r # rs) ! Suc j)"
        using False by auto
      then show ?thesis by blast
    qed
  qed
qed

lemma np_argmax_finite:
  assumes "rs \<noteq> []"
  obtains k where "np_argmax (map Fin rs) = Inr k" and "k < length rs"
    and "\<forall>x\<in>set rs. x \<le> rs ! k" and "\<forall>x\<in>set (take k rs). x < rs ! k"
proof -
  obtain r rs' where rs: "rs = r # rs'"
    using assms by (cases rs) auto
  define k where "k = argmax_scan (Fin r) 0 1 (map Fin rs')"
  have am: "np_argmax (map Fin rs) = Inr k"
    by (simp add: np_argmax_def rs k_def)
  from argmax_scan_finite [OF k_def [symmetric]]
  have "k < length rs \<and> (\<forall>x\<in>set rs. x \<le> rs ! k) \<and> (\<forall>x\<in>set (take k rs). x < rs ! k)"
    unfolding rs by auto
  with am show thesis using that by blast
qed

lemma np_argmax_last:
  assumes "rs \<noteq> []" and "\<forall>i<length rs - 1. rs ! i < rs ! (length rs - 1)"
  shows "np_argmax (map Fin rs) = Inr (length rs - 1)"
proof -
  obtain k where k: "np_argmax (map Fin rs) = Inr k" "k < length rs" "\<forall>x\<in>set rs. x \<le> rs ! k"
    using assms(1) by (rule np_argmax_finite)
  have "rs ! (length rs - 1) \<in> set rs"
    using assms(1) by simp
  then have "rs ! (length rs - 1) \<le> rs ! k"
    using k(3) by blast
  then have "\<not> k < length rs - 1"
    using assms(2) by fastforce
  then have "k = length rs - 1"
    using k(2) by simp
  then show ?thesis using k(1) by simp
qed


lemma linspace_ge2:
  assumes "2 \<le> n"
  shows "np_linspace01 (int n) = Inr (map (\<lambda>i. real i / real (n - 1)) [0..<n])"
proof -
  have "real_of_int (int n - 1) = real (n - 1)"
    using assms by (simp add: of_nat_diff)
  then show ?thesis
    using assms by (simp add: np_linspace01_def)
qed

lemma sum_list_pos:
  fixes xs :: "real list"
  assumes "\<forall>x\<in>set xs. 0 \<le> x" and "y \<in> set xs" and "0 < y"
  shows "0 < sum_list xs"
proof -
  obtain ys zs where xs: "xs = ys @ y # zs"
    using assms(2) by (auto dest: split_list)
  have "0 \<le> sum_list ys" and "0 \<le> sum_list zs"
    using assms(1) by (auto simp: xs intro: sum_list_nonneg)
  then show ?thesis
    using assms(3) by (simp add: xs)
qed

lemma beta_density_nonneg: "0 \<le> x \<Longrightarrow> x \<le> 1 \<Longrightarrow> 0 \<le> beta_density x a b"
  by (simp add: beta_density_def)

lemma beta_density_pos: "0 < x \<Longrightarrow> x < 1 \<Longrightarrow> 0 < beta_density x a b"
  unfolding beta_density_def
  by (intro mult_pos_pos divide_pos_pos zero_less_power) simp_all

lemma beta_density_half_peak:
  assumes "0 \<le> t" and "t < 1" and "0 < a"
  shows "beta_density (t / 2) (a + 1) (a + 1) < beta_density (1 / 2) (a + 1) (a + 1)"
proof -
  have "(t / 2) * (1 - t / 2) < (1 / 2) * (1 - 1 / 2)"
  proof -
    have "0 < (1 - t) * (1 - t)"
      using assms(2) by simp
    then show ?thesis by (simp add: algebra_simps)
  qed
  moreover have "0 \<le> (t / 2) * (1 - t / 2)"
    using assms(1,2) by simp
  ultimately have "((t / 2) * (1 - t / 2)) ^ a < ((1 / 2) * (1 - 1 / 2)) ^ a"
    using assms(3) by (intro power_strict_mono) simp_all
  then have lt: "(t / 2) ^ a * (1 - t / 2) ^ a < (1 / 2) ^ a * (1 - 1 / 2) ^ a"
    by (simp only: power_mult_distrib)
  define c where "c = real (fact (a + 1 + (a + 1) - 1)) / (real (fact a) * real (fact a))"
  have c: "0 < c"
    unfolding c_def by (intro divide_pos_pos mult_pos_pos) (simp_all only: of_nat_0_less_iff fact_gt_zero)
  have shape: "beta_density x (a + 1) (a + 1) = x ^ a * (1 - x) ^ a * c" for x
    by (simp only: beta_density_def c_def add_diff_cancel_right')
  show ?thesis
    unfolding shape using lt c by (rule mult_strict_right_mono)
qed

lemma diploid_hist:
  assumes "2 \<le> n" and "0 < a"
  obtains rs where "ccf_dist_from_params 1 2 a a 1 (int n) = Inr (Dist (map Fin rs))"
    and "length rs = n" and "sum_list rs = 1" and "np_argmax (map Fin rs) = Inr (n - 1)"
proof -
  define bins where "bins = map (\<lambda>i. real i / real (n - 1)) [0..<n]"
  define G where "G = (\<lambda>t. beta_density (t / 2) (a + 1) (a + 1))"
  define s where "s = sum_list (map G bins)"
  define rs where "rs = map (\<lambda>r. r / s) (map G bins)"
  have lin: "np_linspace01 (int n) = Inr bins"
    unfolding bins_def using assms(1) by (rule linspace_ge2)
  have len: "length bins = n"
    by (simp add: bins_def)
  have nth: "bins ! i = real i / real (n - 1)" if "i < n" for i
    using that by (simp add: bins_def)
  have range: "0 \<le> t \<and> t \<le> 1" if "t \<in> set bins" for t
    using that assms(1) by (auto simp: bins_def)
  have last: "bins ! (n - 1) = 1"
    using assms(1) by (simp add: nth)
  have below: "bins ! i < 1" if "i < n - 1" for i
    using that by (simp add: nth)
  have raw: "map (\<lambda>x. beta_pdf x (a + 1) (a + 1))
               (map (\<lambda>b. fdiv (Fin (b * 1 * 1)) (Fin (af_denom 2 1))) bins)
             = map Fin (map G bins)"
  proof -
    have "beta_pdf (fdiv (Fin (b * 1 * 1)) (Fin (af_denom 2 1))) (a + 1) (a + 1) = Fin (G b)"
      if "b \<in> set bins" for b
      using range [OF that] by (simp add: af_denom_def beta_pdf_def G_def)
    then show ?thesis by simp
  qed
  have G_nonneg: "\<forall>x\<in>set (map G bins). 0 \<le> x"
  proof -
    have "0 \<le> G t" if "t \<in> set bins" for t
      unfolding G_def using range [OF that] by (intro beta_density_nonneg) simp_all
    then show ?thesis by auto
  qed
  have "G 1 \<in> set (map G bins)"
    using last len assms(1) by (metis diff_less image_eqI less_le_trans list.set_map nth_mem
        zero_less_numeral zero_less_one)
  moreover have "0 < G 1"
    unfolding G_def by (intro beta_density_pos) simp_all
  ultimately have s_pos: "0 < s"
    unfolding s_def using G_nonneg by (intro sum_list_pos [of _ "G 1"]) simp_all
  have "ccf_dist_from_params 1 2 a a 1 (int n)
      = Inr (Dist (arr_div (map Fin (map G bins)) (py_sum (map Fin (map G bins)))))"
    by (simp only: ccf_dist_from_params_def lin Let_def raw sum.case) simp
  also have "arr_div (map Fin (map G bins)) (py_sum (map Fin (map G bins))) = map Fin rs"
    using s_pos by (simp only: py_sum_map_Fin s_def [symmetric] rs_def) (simp add: arr_div_def)
  finally have dist: "ccf_dist_from_params 1 2 a a 1 (int n) = Inr (Dist (map Fin rs))" .
  have total: "sum_list rs = 1"
    using s_pos by (simp only: rs_def sum_list_divide s_def [symmetric]) simp
  have len_rs: "length rs = n"
    by (simp add: rs_def len)
  have rs_nth: "rs ! i = G (bins ! i) / s" if "i < n" for i
    using that by (simp add: rs_def len)
  have "rs ! i < rs ! (length rs - 1)" if "i < length rs - 1" for i
  proof -
    have i: "i < n - 1" "i < n"
      using that by (simp_all add: len_rs)
    have "0 \<le> bins ! i"
      using range [of "bins ! i"] i(2) len by simp
    then have "G (bins ! i) < G 1"
      unfolding G_def using below [OF i(1)] assms(2) by (intro beta_density_half_peak)
    then have "G (bins ! i) / s < G (bins ! (n - 1)) / s"
      unfolding last using s_pos by (rule divide_strict_right_mono)
    moreover have "n - 1 < n"
      using assms(1) by simp
    ultimately show ?thesis
      using i(2) by (simp only: len_rs rs_nth)
  qed
  moreover have "rs \<noteq> []"
    using len_rs assms(1) by auto
  ultimately have "np_argmax (map Fin rs) = Inr (length rs - 1)"
    by (intro np_argmax_last) simp_all
  then have "np_argmax (map Fin rs) = Inr (n - 1)"
    by (simp add: len_rs)
  with dist len_rs total show thesis
    by (rule that)
qed


text \<open>
  Claim C5 at a grid size other than 101. For a diploid locus (local copy numbers 1 and
  1) with 20 alt and 20 ref reads, purity 1 and \<^verbatim>\<open>grid_size = 11\<close>, the peak of the
  multiplicity-1 histogram is its last bin, index 10, whose CCF grid value is 1. Line 34
  divides the index by the constant 100, so \<^verbatim>\<open>ccf_mode\<close> is 0.1 and not the grid value
  \<open>10 / (11 - 1) = 1\<close>.
\<close>

theorem ccf_mode_ignores_grid_size:
  "(case ccf_dist_from_params 1 2 20 20 1 11 of
      Inr (Dist ccf_dist_m1) \<Rightarrow>
        np_argmax ccf_dist_m1 = Inr 10 \<and> ccf_mode_of ccf_dist_m1 = Inr (1 / 10)
    | Inr (DistMean ccf_dist m) \<Rightarrow> False
    | Inl e \<Rightarrow> False)
   \<and> (case np_linspace01 11 of Inr bins \<Rightarrow> bins ! 10 = 1 | Inl e \<Rightarrow> False)"
proof -
  obtain rs where rs: "ccf_dist_from_params 1 2 20 20 1 (int 11) = Inr (Dist (map Fin rs))"
      "np_argmax (map Fin rs) = Inr (11 - 1)"
    using diploid_hist [of 11 20] by auto
  have mode: "ccf_mode_of (map Fin rs) = Inr (1 / 10)"
    by (simp add: ccf_mode_of_def rs(2))
  have bins: "np_linspace01 11 = Inr (map (\<lambda>i. real i / real (11 - 1)) [0..<11])"
    using linspace_ge2 [of 11] by simp
  have "map (\<lambda>i. real i / real (11 - 1)) [0..<11] ! 10 = 1"
    by (simp del: upt_Suc)
  with rs mode bins show ?thesis by simp
qed

subsection \<open>The end-to-end example\<close>











end
